theory Spec2Isabelle
  imports Complex_Main
begin

section \<open>The ETL pipeline of \<open>src/etl_pipeline.py\<close>\<close>

subsection \<open>Configuration\<close>

text \<open>
  A Python dict is kept as the list of its items in insertion order, which is the order
  \<open>.items()\<close> iterates in. The module's constants are given below; the functions take
  the two tables as arguments, so that a property can be stated for every configuration.
\<close>

type_synonym country_groups = "(string \<times> string list) list"
type_synonym indicators = "(string \<times> string) list"

definition START_YEAR :: int where
  "START_YEAR = 2000"

definition END_YEAR :: int where
  "END_YEAR = 2024"

definition COUNTRY_GROUPS :: country_groups where
  "COUNTRY_GROUPS =
     [(''G7'', [''USA'', ''GBR'', ''DEU'', ''FRA'', ''ITA'', ''CAN'', ''JPN'']),
      (''AFRICA_TOP5'', [''NGA'', ''ZAF'', ''EGY'', ''DZA'', ''MAR''])]"

definition INDICATORS :: indicators where
  "INDICATORS =
     [(''NY.GDP.MKTP.KD.ZG'', ''GDP Growth (%)''),
      (''FP.CPI.TOTL.ZG'', ''Inflation (%)''),
      (''BX.KLT.DINV.WD.GD.ZS'', ''FDI (% of GDP)''),
      (''FS.AST.PRVT.GD.ZS'', ''Private Credit (% of GDP)''),
      (''SL.UEM.TOTL.ZS'', ''Unemployment (%)''),
      (''GC.DOD.TOTL.GD.ZS'', ''Central Gov Debt (% of GDP)''),
      (''EG.ELC.ACCS.ZS'', ''Access to Electricity (%)''),
      (''NE.EXP.GNFS.ZS'', ''Exports (% of GDP)'')]"

subsection \<open>Enumerating the fetch tasks\<close>

text \<open>
  Lines 44-47 of \<open>fetch_data\<close>: one \<open>(country, group)\<close> pair per country of every group.
\<close>

definition tasks :: "country_groups \<Rightarrow> (string \<times> string) list" where
  "tasks groups =
     concat (map (\<lambda>(group, countries). map (\<lambda>country. (country, group)) countries) groups)"

text \<open>
  Lines 55-62: one request per task and indicator, kept with the task's country code and
  group and the indicator's code and name.
\<close>

type_synonym fetch_task = "string \<times> string \<times> string \<times> string"

definition futures :: "(string \<times> string) list \<Rightarrow> indicators \<Rightarrow> fetch_task list" where
  "futures ts inds =
     concat (map (\<lambda>(country_code, group).
                    map (\<lambda>(ind_code, ind_name). (country_code, group, ind_code, ind_name)) inds)
                 ts)"

subsection \<open>Python values and exceptions\<close>

text \<open>
  What \<open>resp.json()\<close> returns: \<open>None\<close>, a bool, an int, a float, a str, a list or a dict
  with str keys (its items in insertion order). A float is kept as the rational number it
  denotes: infinities and NaN are outside this model.
\<close>

datatype json =
    JNull
  | JBool bool
  | JInt int
  | JFloat rat
  | JStr string
  | JArr "json list"
  | JObj "(string \<times> json) list"

datatype exn =
    RequestException
  | TypeError
  | KeyError string
  | IndexError
  | ValueError
  | OverflowError

text \<open>\<open>len(x)\<close>.\<close>

fun py_len :: "json \<Rightarrow> exn + nat" where
  "py_len (JArr xs) = Inr (length xs)"
| "py_len (JObj kvs) = Inr (length (remdups (map fst kvs)))"
| "py_len (JStr s) = Inr (length s)"
| "py_len _ = Inl TypeError"

text \<open>\<open>x[1]\<close>. A dict of \<open>resp.json()\<close> has str keys only, so the key \<open>1\<close> is missing.\<close>

fun getitem_1 :: "json \<Rightarrow> exn + json" where
  "getitem_1 (JArr xs) = (if 1 < length xs then Inr (xs ! 1) else Inl IndexError)"
| "getitem_1 (JStr s) = (if 1 < length s then Inr (JStr [s ! 1]) else Inl IndexError)"
| "getitem_1 (JObj kvs) = Inl (KeyError ''1'')"
| "getitem_1 _ = Inl TypeError"

text \<open>\<open>x[k]\<close> for the str \<open>k\<close>.\<close>

fun getitem :: "json \<Rightarrow> string \<Rightarrow> exn + json" where
  "getitem (JObj kvs) k = (case map_of kvs k of None \<Rightarrow> Inl (KeyError k) | Some v \<Rightarrow> Inr v)"
| "getitem _ k = Inl TypeError"

text \<open>The elements \<open>for entry in x\<close> runs through.\<close>

fun py_iter :: "json \<Rightarrow> exn + json list" where
  "py_iter (JArr xs) = Inr xs"
| "py_iter (JStr s) = Inr (map (\<lambda>c. JStr [c]) s)"
| "py_iter (JObj kvs) = Inr (map JStr (remdups (map fst kvs)))"
| "py_iter _ = Inl TypeError"

text \<open>
  The environment of one run, which the source file does not define: what \<open>int\<close> and
  \<open>float\<close> make of a str (\<open>None\<close> where they raise \<open>ValueError\<close>), and for the
  \<open>i\<close>-th submitted request what \<open>future.result()\<close> followed by \<open>resp.json()\<close> gives:
  the exception raised (network error, timeout, body that is not JSON) or the decoded body.
\<close>

record env =
  str_int :: "string \<Rightarrow> int option"
  str_float :: "string \<Rightarrow> rat option"
  future_result :: "nat \<Rightarrow> exn + json"

text \<open>\<open>int(x)\<close>: a float is truncated towards zero.\<close>

fun py_int :: "env \<Rightarrow> json \<Rightarrow> exn + int" where
  "py_int E (JStr s) = (case str_int E s of None \<Rightarrow> Inl ValueError | Some i \<Rightarrow> Inr i)"
| "py_int E (JInt i) = Inr i"
| "py_int E (JFloat r) = Inr (if r < 0 then \<lceil>r\<rceil> else \<lfloor>r\<rfloor>)"
| "py_int E (JBool b) = Inr (if b then 1 else 0)"
| "py_int E _ = Inl TypeError"

text \<open>\<open>n.bit_length()\<close> for \<open>n \<ge> 0\<close>.\<close>

function bit_length :: "int \<Rightarrow> nat" where
  "bit_length n = (if n \<le> 0 then 0 else Suc (bit_length (n div 2)))"
  by pat_completeness auto
termination
  by (relation "measure nat") auto

declare bit_length.simps [simp del]

text \<open>
  \<open>float(i)\<close> for an int: the nearest float64, which is \<open>i\<close> itself up to 53 bits and
  beyond that \<open>i\<close> rounded to 53 significant bits, a tie going to the even neighbour.
  \<open>None\<close> is the \<open>OverflowError\<close> raised when the rounded value reaches \<open>2 ^ 1024\<close>, that
  is, needs more than 1024 bits.
\<close>

definition float_of_int :: "int \<Rightarrow> rat option" where
  "float_of_int i =
     (let n = \<bar>i\<bar>;
          k = bit_length n - 53;
          q = n div 2 ^ k;
          r = n mod 2 ^ k;
          up = (2 ^ k < 2 * r \<or> (2 * r = 2 ^ k \<and> odd q));
          m = (if up then q + 1 else q) * 2 ^ k
      in if 1024 < bit_length m then None
         else Some (of_int (if i < 0 then - m else m)))"

text \<open>\<open>float(x)\<close>.\<close>

fun py_float :: "env \<Rightarrow> json \<Rightarrow> exn + rat" where
  "py_float E (JStr s) = (case str_float E s of None \<Rightarrow> Inl ValueError | Some r \<Rightarrow> Inr r)"
| "py_float E (JInt i) = (case float_of_int i of None \<Rightarrow> Inl OverflowError | Some r \<Rightarrow> Inr r)"
| "py_float E (JFloat r) = Inr r"
| "py_float E (JBool b) = Inr (if b then 1 else 0)"
| "py_float E _ = Inl TypeError"

subsection \<open>Observations and data frames\<close>

text \<open>
  One dict appended to \<open>all_data\<close> (lines 75-83). The country's name and code are whatever
  the response holds under \<open>entry["country"]\<close>; the code converts neither.
\<close>

record observation =
  country :: json
  country_code :: json
  country_group :: string
  indicator_code :: string
  indicator_name :: string
  year :: int
  "value" :: rat

text \<open>
  A pandas DataFrame as this program uses it: the seven columns of the observations, which
  are there or not together, and the column \<open>is_outlier\<close>. \<open>None\<close> is a column the
  frame does not have.
\<close>

record dataframe =
  observations :: "observation list option"
  is_outlier :: "bool list option"

text \<open>
  \<open>pd.DataFrame(all_data)\<close>: the columns are the keys of the dicts, so the frame of an
  empty list has no column at all.
\<close>

definition DataFrame :: "observation list \<Rightarrow> dataframe" where
  "DataFrame all_data =
     \<lparr>observations = (if all_data = [] then None else Some all_data), is_outlier = None\<rparr>"

text \<open>\<open>len(df)\<close>, the length of the index.\<close>

definition nrows :: "dataframe \<Rightarrow> nat" where
  "nrows df =
     (case observations df of
        Some rs \<Rightarrow> length rs
      | None \<Rightarrow> (case is_outlier df of Some fl \<Rightarrow> length fl | None \<Rightarrow> 0))"

subsection \<open>Fetching\<close>

text \<open>
  Lines 74-83, for one entry of \<open>data[1]\<close>: \<open>Inr None\<close> when the entry's value is
  \<open>None\<close> (nothing is appended), \<open>Inr (Some ob)\<close> for the dict to append, \<open>Inl e\<close>
  when an expression raises. The dict's values are evaluated in the order written.
\<close>

definition entry_observation :: "env \<Rightarrow> fetch_task \<Rightarrow> json \<Rightarrow> exn + observation option" where
  "entry_observation E t entry =
     (case t of (cc, grp, ind_code, ind_name) \<Rightarrow>
      case getitem entry ''value'' of Inl e \<Rightarrow> Inl e | Inr v \<Rightarrow>
      if v = JNull then Inr None else
      case getitem entry ''country'' of Inl e \<Rightarrow> Inl e | Inr c \<Rightarrow>
      case getitem c ''value'' of Inl e \<Rightarrow> Inl e | Inr c_value \<Rightarrow>
      case getitem c ''id'' of Inl e \<Rightarrow> Inl e | Inr c_id \<Rightarrow>
      case getitem entry ''date'' of Inl e \<Rightarrow> Inl e | Inr d \<Rightarrow>
      case py_int E d of Inl e \<Rightarrow> Inl e | Inr y \<Rightarrow>
      case py_float E v of Inl e \<Rightarrow> Inl e | Inr x \<Rightarrow>
      Inr (Some \<lparr>country = c_value, country_code = c_id, country_group = grp,
                 indicator_code = ind_code, indicator_name = ind_name,
                 year = y, value = x\<rparr>))"

text \<open>
  The loop of line 73 over the entries, appending to \<open>all_data\<close>. An exception leaves the
  loop: the result is the exception, if any, and \<open>all_data\<close> as it is at that moment.
\<close>

fun entries_loop ::
  "env \<Rightarrow> fetch_task \<Rightarrow> json list \<Rightarrow> observation list \<Rightarrow> exn option \<times> observation list" where
  "entries_loop E t [] all_data = (None, all_data)"
| "entries_loop E t (entry # rest) all_data =
     (case entry_observation E t entry of
        Inl e \<Rightarrow> (Some e, all_data)
      | Inr None \<Rightarrow> entries_loop E t rest all_data
      | Inr (Some ob) \<Rightarrow> entries_loop E t rest (all_data @ [ob]))"

text \<open>The body of the \<open>try\<close> (lines 66-83) for the \<open>i\<close>-th future.\<close>

definition try_body ::
  "env \<Rightarrow> nat \<times> fetch_task \<Rightarrow> observation list \<Rightarrow> exn option \<times> observation list" where
  "try_body E ft all_data =
     (case ft of (i, t) \<Rightarrow>
      case future_result E i of Inl e \<Rightarrow> (Some e, all_data) | Inr data \<Rightarrow>
      case py_len data of Inl e \<Rightarrow> (Some e, all_data) | Inr n \<Rightarrow>
      if n < 2 then (None, all_data) else
      case getitem_1 data of Inl e \<Rightarrow> (Some e, all_data) | Inr entries \<Rightarrow>
      case py_iter entries of Inl e \<Rightarrow> (Some e, all_data) | Inr es \<Rightarrow>
      entries_loop E t es all_data)"

text \<open>
  One round of the loop of line 64 with its \<open>except Exception\<close>: the state is \<open>all_data\<close>
  and the lines printed, each naming the indicator code, the country code and the exception.
\<close>

type_synonym fetch_state = "observation list \<times> (string \<times> string \<times> exn) list"

definition collect :: "env \<Rightarrow> nat \<times> fetch_task \<Rightarrow> fetch_state \<Rightarrow> fetch_state" where
  "collect E ft st =
     (case st of (all_data, printed) \<Rightarrow>
      case ft of (i, cc, grp, ind_code, ind_name) \<Rightarrow>
      case try_body E ft all_data of
        (None, all_data') \<Rightarrow> (all_data', printed)
      | (Some e, all_data') \<Rightarrow> (all_data', printed @ [(ind_code, cc, e)]))"

definition fetch_loop :: "env \<Rightarrow> fetch_task list \<Rightarrow> fetch_state" where
  "fetch_loop E fs = fold (collect E) (enumerate 0 fs) ([], [])"

definition fetch_data :: "env \<Rightarrow> country_groups \<Rightarrow> indicators \<Rightarrow> dataframe" where
  "fetch_data E groups inds = DataFrame (fst (fetch_loop E (futures (tasks groups) inds)))"

subsection \<open>Outlier detection\<close>

text \<open>
  \<open>Series.quantile(q)\<close> of pandas with its default linear interpolation, for
  \<open>0 \<le> q \<le> 1\<close>: the value at position \<open>(n - 1) * q\<close> of the sorted values, interpolated
  between the two neighbouring order statistics. The quantile of an empty series is NaN,
  here \<open>None\<close>.
\<close>

definition quantile :: "rat list \<Rightarrow> rat \<Rightarrow> rat option" where
  "quantile values q =
     (if values = [] then None
      else let a = sort values;
               n = length a;
               h = of_nat (n - 1) * q;
               lo = nat \<lfloor>h\<rfloor>;
               hi = min (lo + 1) (n - 1)
           in Some (a ! lo + (a ! hi - a ! lo) * (h - of_nat lo)))"

text \<open>\<open>Series.unique()\<close>: the distinct values in order of first appearance.\<close>

fun unique :: "'a list \<Rightarrow> 'a list" where
  "unique [] = []"
| "unique (x # xs) = x # unique (filter (\<lambda>y. y \<noteq> x) xs)"

text \<open>\<open>column.loc[mask]\<close>: the cells of a column where the mask holds.\<close>

definition loc :: "bool list \<Rightarrow> 'a list \<Rightarrow> 'a list" where
  "loc msk column = map snd (filter fst (zip msk column))"

text \<open>\<open>column.loc[mask] = v\<close>: the column with \<open>v\<close> where the mask holds.\<close>

definition loc_assign :: "bool list \<Rightarrow> 'a \<Rightarrow> 'a list \<Rightarrow> 'a list" where
  "loc_assign msk v column = map (\<lambda>(m, c). if m then v else c) (zip msk column)"

text \<open>
  The body of the loop of line 94 (lines 95-106) for one indicator, on the rows of the
  frame and its column \<open>is_outlier\<close>, in arithmetic without rounding (with the rounding of
  float64: \<open>flag_indicator_with\<close> below). A comparison with NaN is false, so NaN bounds
  flag nothing.
\<close>

definition flag_indicator :: "observation list \<Rightarrow> string \<Rightarrow> bool list \<Rightarrow> bool list" where
  "flag_indicator rows indicator flags =
     (let msk = map (\<lambda>r. indicator_code r = indicator) rows;
          values = loc msk (map value rows)
      in case (quantile values (1 / 4), quantile values (3 / 4)) of
           (Some Q1, Some Q3) \<Rightarrow>
             let IQR = Q3 - Q1;
                 lower = Q1 - 3 / 2 * IQR;
                 upper = Q3 + 3 / 2 * IQR;
                 outlier_mask = map (\<lambda>r. value r < lower \<or> value r > upper) rows
             in loc_assign (map (\<lambda>(m, om). m \<and> om) (zip msk outlier_mask)) True flags
         | _ \<Rightarrow> flags)"

text \<open>
  \<open>detect_outliers_iqr(df)\<close>. Line 92 sets the column \<open>is_outlier\<close> on any frame; line 94
  raises \<open>KeyError\<close> on a frame without the column \<open>indicator_code\<close>.
\<close>

definition detect_outliers_iqr :: "dataframe \<Rightarrow> exn + dataframe" where
  "detect_outliers_iqr df =
     (let df1 = df\<lparr>is_outlier := Some (replicate (nrows df) False)\<rparr> in
      case observations df1 of
        None \<Rightarrow> Inl (KeyError ''indicator_code'')
      | Some rows \<Rightarrow>
          Inr (df1\<lparr>is_outlier :=
                 Some (fold (flag_indicator rows) (unique (map indicator_code rows))
                          (replicate (nrows df) False))\<rparr>))"

subsection \<open>Outlier detection in any float arithmetic\<close>





subsection \<open>The run\<close>

text \<open>
  The \<open>__main__\<close> block: extract, transform, and the frame handed to \<open>load_to_database\<close>.
  An exception of \<open>detect_outliers_iqr\<close> is not caught and ends the run before the load.
\<close>

definition run :: "env \<Rightarrow> country_groups \<Rightarrow> indicators \<Rightarrow> exn + dataframe" where
  "run E groups inds =
     (let df_raw = fetch_data E groups inds in
      case detect_outliers_iqr df_raw of
        Inl e \<Rightarrow> Inl e
      | Inr df_clean \<Rightarrow> Inr df_clean)"

subsection \<open>Notions used in the statements\<close>

text \<open>The values of one indicator's records, in the order of the rows (line 96).\<close>

definition indicator_values :: "observation list \<Rightarrow> string \<Rightarrow> rat list" where
  "indicator_values rows indicator =
     map value (filter (\<lambda>r. indicator_code r = indicator) rows)"

text \<open>
  The rule of lines 98-105 for one value against a sequence of values: strictly below
  \<open>Q1 - 1.5 * IQR\<close> or strictly above \<open>Q3 + 1.5 * IQR\<close>.
\<close>

definition iqr_outlier :: "rat list \<Rightarrow> rat \<Rightarrow> bool" where
  "iqr_outlier values v =
     (case (quantile values (1 / 4), quantile values (3 / 4)) of
        (Some Q1, Some Q3) \<Rightarrow> v < Q1 - 3 / 2 * (Q3 - Q1) \<or> v > Q3 + 3 / 2 * (Q3 - Q1)
      | _ \<Rightarrow> False)"

definition row_flag :: "observation list \<Rightarrow> observation \<Rightarrow> bool" where
  "row_flag rows r = iqr_outlier (indicator_values rows (indicator_code r)) (value r)"



subsection \<open>An environment for examples\<close>

text \<open>
  Unsigned decimal numerals, on which \<open>int\<close> and \<open>float\<close> of Python agree with the
  functions below; both raise \<open>ValueError\<close> on a str with a letter in it.
\<close>

fun digits :: "string \<Rightarrow> nat \<Rightarrow> nat option" where
  "digits [] acc = Some acc"
| "digits (c # cs) acc =
     (if c \<in> set ''0123456789'' then digits cs (10 * acc + (of_char c - 48)) else None)"

definition decimal :: "string \<Rightarrow> nat option" where
  "decimal s = (if s = [] then None else digits s 0)"

definition example_env :: "(nat \<Rightarrow> exn + json) \<Rightarrow> env" where
  "example_env f =
     \<lparr>str_int = map_option int \<circ> decimal,
      str_float = map_option of_nat \<circ> decimal,
      future_result = f\<rparr>"

text \<open>An entry of a response as the World Bank API shapes it.\<close>

definition entry :: "string \<Rightarrow> string \<Rightarrow> string \<Rightarrow> json \<Rightarrow> json" where
  "entry name cid d v =
     JObj [(''country'', JObj [(''id'', JStr cid), (''value'', JStr name)]),
           (''date'', JStr d), (''value'', v)]"

text \<open>A row with the given indicator code and value.\<close>

definition row :: "string \<Rightarrow> rat \<Rightarrow> observation" where
  "row ind v =
     \<lparr>country = JStr ''Nigeria'', country_code = JStr ''NG'', country_group = ''AFRICA_TOP5'',
      indicator_code = ind, indicator_name = ind, year = 2000, value = v\<rparr>"

text \<open>
  Rows for examples: the value sequence of the specification's example for indicator
  \<open>A\<close> among rows of an indicator \<open>B\<close>; codes and values in which \<open>-1\<close> and \<open>7\<close> tie
  with the bounds of \<open>A\<close>, and the rows that hold them;
  and the same records of \<open>A\<close> with and without records of \<open>B\<close>.
\<close>

definition spec_rows :: "observation list" where
  "spec_rows =
     [row ''A'' 10, row ''A'' 12, row ''B'' 500, row ''A'' 12, row ''A'' 13, row ''A'' 12,
      row ''A'' 11, row ''B'' 2, row ''A'' 14, row ''A'' 13, row ''A'' 15, row ''A'' 102]"




definition mixed_rows :: "observation list" where
  "mixed_rows =
     [row ''B'' 1000, row ''A'' 1, row ''A'' 2, row ''B'' 1, row ''A'' 2, row ''B'' 2,
      row ''A'' 3, row ''B'' 3, row ''B'' 2, row ''A'' 50]"

definition alone_rows :: "observation list" where
  "alone_rows = [row ''A'' 1, row ''A'' 2, row ''A'' 2, row ''A'' 3, row ''A'' 50]"

subsection \<open>Notions used in the statements about fetching\<close>

text \<open>An entry that raises nothing in lines 74-83.\<close>

definition parses :: "env \<Rightarrow> fetch_task \<Rightarrow> json \<Rightarrow> bool" where
  "parses E t e = (case entry_observation E t e of Inl x \<Rightarrow> False | Inr r \<Rightarrow> True)"

text \<open>
  An entry with a value that is not null whose date \<open>int\<close> rejects or whose value
  \<open>float\<close> rejects.
\<close>

definition unparsable :: "env \<Rightarrow> json \<Rightarrow> bool" where
  "unparsable E e =
     (case getitem e ''value'' of
        Inl x \<Rightarrow> False
      | Inr v \<Rightarrow>
          v \<noteq> JNull \<and>
          ((case getitem e ''date'' of Inl x \<Rightarrow> False | Inr d \<Rightarrow> isl (py_int E d)) \<or>
           isl (py_float E v)))"

text \<open>The observations that entries contribute when none of them raises.\<close>

definition parsed :: "env \<Rightarrow> fetch_task \<Rightarrow> json list \<Rightarrow> observation list" where
  "parsed E t es =
     concat (map (\<lambda>e. case entry_observation E t e of Inr (Some ob) \<Rightarrow> [ob] | _ \<Rightarrow> []) es)"

text \<open>What the \<open>i\<close>-th future appends to \<open>all_data\<close>, starting from an empty list.\<close>

definition contribution :: "env \<Rightarrow> nat \<times> fetch_task \<Rightarrow> observation list" where
  "contribution E ft = snd (try_body E ft [])"

text \<open>
  The trust the code puts in the API: every entry of a response names a configured country
  as its country id and carries a date within the requested years.
\<close>

definition api_in_range :: "env \<Rightarrow> country_groups \<Rightarrow> bool" where
  "api_in_range E groups =
     (\<forall>i data entries e c cid d y.
        future_result E i = Inr (JArr data) \<and> 1 < length data \<and> data ! 1 = JArr entries \<and>
        e \<in> set entries \<and> getitem e ''country'' = Inr c \<and> getitem c ''id'' = Inr cid \<and>
        getitem e ''date'' = Inr d \<and> py_int E d = Inr y \<longrightarrow>
        (\<exists>cc. cid = JStr cc \<and> cc \<in> fst ` set (tasks groups)) \<and> START_YEAR \<le> y \<and> y \<le> END_YEAR)"

subsection \<open>Environments for examples\<close>

text \<open>
  A response whose third entry has the date \<open>20x3\<close>, answered to the first request while
  every other request fails; no network at all; a response with the country id \<open>US\<close> and
  the year 1999; and a response with a configured country code and years in range.
\<close>

definition broken_response :: json where
  "broken_response =
     JArr [JObj [(''page'', JInt 1)],
           JArr [entry ''United States'' ''US'' ''2001'' (JFloat (5 / 2)),
                 entry ''United States'' ''US'' ''2002'' JNull,
                 entry ''United States'' ''US'' ''20x3'' (JFloat 3),
                 entry ''United States'' ''US'' ''2004'' (JFloat (7 / 2))]]"

definition broken_env :: env where
  "broken_env = example_env (\<lambda>i. if i = 0 then Inr broken_response else Inl RequestException)"

definition offline_env :: env where
  "offline_env = example_env (\<lambda>i. Inl RequestException)"

definition stray_env :: env where
  "stray_env =
     example_env (\<lambda>i. if i = 0
        then Inr (JArr [JObj [(''page'', JInt 1)],
                        JArr [entry ''United States'' ''US'' ''1999'' (JFloat 4)]])
        else Inl RequestException)"

definition clean_env :: env where
  "clean_env =
     example_env (\<lambda>i. if i = 0
        then Inr (JArr [JObj [(''page'', JInt 1)],
                        JArr [entry ''United States'' ''USA'' ''2001'' (JFloat (5 / 2)),
                              entry ''United States'' ''USA'' ''2004'' (JFloat (7 / 2))]])
        else Inl RequestException)"

text \<open>An observation of the first task (USA, G7, GDP growth).\<close>

definition observed :: "string \<Rightarrow> string \<Rightarrow> int \<Rightarrow> rat \<Rightarrow> observation" where
  "observed name cid y v =
     \<lparr>country = JStr name, country_code = JStr cid, country_group = ''G7'',
      indicator_code = ''NY.GDP.MKTP.KD.ZG'', indicator_name = ''GDP Growth (%)'',
      year = y, value = v\<rparr>"

section \<open>Properties\<close>

subsection \<open>The task enumeration\<close>

lemma tasks_Nil: "tasks [] = []"
  by (simp add: tasks_def)

lemma tasks_Cons: "tasks ((g, cs) # groups) = map (\<lambda>c. (c, g)) cs @ tasks groups"
  by (simp add: tasks_def)

lemma futures_Nil: "futures [] inds = []"
  by (simp add: futures_def)

lemma futures_Cons:
  "futures ((c, g) # ts) inds = map (\<lambda>(ic, iname). (c, g, ic, iname)) inds @ futures ts inds"
  by (simp add: futures_def)

lemma length_tasks: "length (tasks groups) = (\<Sum>(g, cs)\<leftarrow>groups. length cs)"
  by (induction groups) (auto simp: tasks_Nil tasks_Cons)

lemma length_futures: "length (futures ts inds) = length ts * length inds"
  by (induction ts) (auto simp: futures_Nil futures_Cons)

lemma set_tasks: "set (tasks groups) = {(c, g). \<exists>cs. (g, cs) \<in> set groups \<and> c \<in> set cs}"
  by (auto simp: tasks_def)

lemma set_futures:
  "set (futures ts inds) = {(c, g, ic, iname). (c, g) \<in> set ts \<and> (ic, iname) \<in> set inds}"
  by (auto simp: futures_def)

lemma distinct_tasks:
  "distinct (map fst groups) \<Longrightarrow> \<forall>(g, cs)\<in>set groups. distinct cs \<Longrightarrow> distinct (tasks groups)"
proof (induction groups)
  case Nil
  show ?case by (simp add: tasks_Nil)
next
  case (Cons p groups)
  obtain g cs where p: "p = (g, cs)" by (cases p)
  from Cons.prems p have g: "g \<notin> fst ` set groups" and cs: "distinct cs"
    and rest: "distinct (map fst groups)" "\<forall>(g, cs)\<in>set groups. distinct cs"
    by auto
  have "distinct (map (\<lambda>c. (c, g)) cs)"
    using cs by (simp add: distinct_map inj_on_def)
  moreover have "distinct (tasks groups)"
    using Cons.IH rest by blast
  moreover have "set (map (\<lambda>c. (c, g)) cs) \<inter> set (tasks groups) = {}"
    using g by (force simp: set_tasks)
  ultimately show ?case
    by (simp add: p tasks_Cons)
qed

lemma distinct_futures: "distinct ts \<Longrightarrow> distinct inds \<Longrightarrow> distinct (futures ts inds)"
proof (induction ts)
  case Nil
  show ?case by (simp add: futures_Nil)
next
  case (Cons t ts)
  obtain c g where t: "t = (c, g)" by (cases t)
  have "distinct (map (\<lambda>(ic, iname). (c, g, ic, iname)) inds)"
    using Cons.prems(2) by (auto simp: distinct_map inj_on_def)
  moreover have "set (map (\<lambda>(ic, iname). (c, g, ic, iname)) inds) \<inter> set (futures ts inds) = {}"
    using Cons.prems(1) t by (auto simp: set_futures)
  ultimately show ?case
    using Cons t by (simp add: futures_Cons)
qed

lemma count_list_distinct: "distinct xs \<Longrightarrow> count_list xs x = (if x \<in> set xs then 1 else 0)"
  by (induction xs) auto

text \<open>
  Claim C4. The task enumeration yields as many fetch tasks as there are countries (over all
  groups) times indicators; when the configuration has no duplicate (group names, the
  countries of one group, indicator codes), every configured combination of a country with
  its group and an indicator with its name occurs exactly once, and nothing else occurs.
\<close>

theorem task_enumerator:
  "length (futures (tasks groups) inds) = (\<Sum>(g, cs)\<leftarrow>groups. length cs) * length inds \<and>
   (distinct (map fst groups) \<and> (\<forall>(g, cs)\<in>set groups. distinct cs) \<and> distinct (map fst inds) \<longrightarrow>
      (\<forall>c g ic iname.
         count_list (futures (tasks groups) inds) (c, g, ic, iname) =
           (if (\<exists>cs. (g, cs) \<in> set groups \<and> c \<in> set cs) \<and> (ic, iname) \<in> set inds then 1 else 0)))"
proof (intro conjI impI allI)
  show "length (futures (tasks groups) inds) = (\<Sum>(g, cs)\<leftarrow>groups. length cs) * length inds"
    by (simp add: length_futures length_tasks)
next
  fix c g ic iname
  assume a: "distinct (map fst groups) \<and> (\<forall>(g, cs)\<in>set groups. distinct cs) \<and> distinct (map fst inds)"
  then have "distinct (futures (tasks groups) inds)"
    by (intro distinct_futures distinct_tasks) (auto simp: distinct_map)
  then show "count_list (futures (tasks groups) inds) (c, g, ic, iname) =
           (if (\<exists>cs. (g, cs) \<in> set groups \<and> c \<in> set cs) \<and> (ic, iname) \<in> set inds then 1 else 0)"
    by (simp add: count_list_distinct set_futures set_tasks)
qed

theorem task_enumerator_witness:
  "length (futures (tasks COUNTRY_GROUPS) INDICATORS) = 96 \<and>
   count_list (futures (tasks COUNTRY_GROUPS) INDICATORS)
     (''ZAF'', ''AFRICA_TOP5'', ''SL.UEM.TOTL.ZS'', ''Unemployment (%)'') = 1"
  using task_enumerator [of COUNTRY_GROUPS INDICATORS]
  by (simp add: COUNTRY_GROUPS_def INDICATORS_def)

subsection \<open>The outlier detector\<close>

lemma loc_map: "loc (map P xs) (map f xs) = map f (filter P xs)"
  by (induction xs) (auto simp: loc_def)

lemma loc_values: "loc (map (\<lambda>r. indicator_code r = a) rows) (map value rows) = indicator_values rows a"
  by (simp add: loc_map indicator_values_def)

lemma length_loc_assign: "length (loc_assign m v c) = min (length m) (length c)"
  by (simp add: loc_assign_def)

lemma nth_loc_assign:
  "i < length m \<Longrightarrow> i < length c \<Longrightarrow> loc_assign m v c ! i = (if m ! i then v else c ! i)"
  by (simp add: loc_assign_def)

lemma length_flag_indicator:
  "length flags = length rows \<Longrightarrow> length (flag_indicator rows a flags) = length rows"
  by (simp add: flag_indicator_def Let_def length_loc_assign split: option.splits)

lemma nth_flag_indicator:
  assumes "length flags = length rows" and "i < length rows"
  shows "flag_indicator rows a flags ! i =
           (flags ! i \<or> (indicator_code (rows ! i) = a \<and> iqr_outlier (indicator_values rows a) (value (rows ! i))))"
  using assms
  by (auto simp: flag_indicator_def Let_def loc_values iqr_outlier_def nth_loc_assign
           split: option.splits)

lemma fold_flag_indicator:
  assumes "length flags = length rows" and "i < length rows"
  shows "length (fold (flag_indicator rows) inds flags) = length rows \<and>
         fold (flag_indicator rows) inds flags ! i =
           (flags ! i \<or> (indicator_code (rows ! i) \<in> set inds \<and> row_flag rows (rows ! i)))"
  using assms
proof (induction inds arbitrary: flags)
  case Nil
  then show ?case by simp
next
  case (Cons a inds)
  have len: "length (flag_indicator rows a flags) = length rows"
    using Cons.prems(1) by (rule length_flag_indicator)
  show ?case
    using Cons.IH [OF len Cons.prems(2)] nth_flag_indicator [OF Cons.prems, of a]
    by (auto simp: row_flag_def)
qed

lemma length_fold_flag_indicator:
  "length flags = length rows \<Longrightarrow> length (fold (flag_indicator rows) inds flags) = length rows"
  by (induction inds arbitrary: flags) (simp_all add: length_flag_indicator)

lemma set_unique: "set (unique xs) = set xs"
  by (induction xs rule: unique.induct) auto

lemma distinct_unique: "distinct (unique xs)"
  by (induction xs rule: unique.induct) (auto simp: set_unique)

lemma flags_closed_form:
  "fold (flag_indicator rows) (unique (map indicator_code rows)) (replicate (length rows) False)
     = map (row_flag rows) rows"
proof (rule nth_equalityI)
  show "length (fold (flag_indicator rows) (unique (map indicator_code rows))
          (replicate (length rows) False)) = length (map (row_flag rows) rows)"
    by (simp add: length_fold_flag_indicator)
next
  fix i
  assume "i < length (fold (flag_indicator rows) (unique (map indicator_code rows))
          (replicate (length rows) False))"
  then have i: "i < length rows"
    by (simp add: length_fold_flag_indicator)
  then show "fold (flag_indicator rows) (unique (map indicator_code rows))
          (replicate (length rows) False) ! i = map (row_flag rows) rows ! i"
    using fold_flag_indicator [of "replicate (length rows) False" rows i "unique (map indicator_code rows)"]
    by (simp add: set_unique)
qed

lemma detect_closed_form:
  "observations df = Some rows \<Longrightarrow>
     detect_outliers_iqr df = Inr (df\<lparr>is_outlier := Some (map (row_flag rows) rows)\<rparr>)"
  by (simp add: detect_outliers_iqr_def nrows_def flags_closed_form)

lemma detect_KeyError:
  "observations df = None \<Longrightarrow> detect_outliers_iqr df = Inl (KeyError ''indicator_code'')"
  by (simp add: detect_outliers_iqr_def)


lemma quantile_single: "quantile [V] q = Some V"
  by (simp add: quantile_def)



text \<open>
  Claim C8. Whenever the detector returns, its result is the input frame with nothing but
  the column \<open>is_outlier\<close> set: the same records in the same order, every other field
  untouched, and one flag per record. On every frame that has the observation columns it
  does return.
\<close>

theorem detector_frame:
  "(\<forall>df'. detect_outliers_iqr df = Inr df' \<longrightarrow>
      observations df' = observations df \<and>
      (\<exists>fl. df' = df\<lparr>is_outlier := Some fl\<rparr> \<and> length fl = nrows df)) \<and>
   (\<forall>rows. observations df = Some rows \<longrightarrow>
      (\<exists>fl. detect_outliers_iqr df = Inr (df\<lparr>is_outlier := Some fl\<rparr>) \<and>
            length fl = length rows))"
proof (cases "observations df")
  case None
  then show ?thesis by (simp add: detect_KeyError)
next
  case (Some rows)
  have len: "length (map (row_flag rows) rows) = length rows"
    by simp
  have n: "nrows df = length rows"
    using Some by (simp add: nrows_def)
  show ?thesis
    using Some len n detect_closed_form [OF Some] by auto
qed

lemma floor_rat_numeral_divide:
  "\<lfloor>numeral a / numeral b :: rat\<rfloor> = numeral a div numeral b"
  by (metis floor_divide_of_int_eq of_int_numeral)

lemma floor_rat_one_divide: "\<lfloor>1 / numeral b :: rat\<rfloor> = 1 div numeral b"
  by (metis floor_divide_of_int_eq of_int_1 of_int_numeral)

lemmas quantile_eval = quantile_def Let_def floor_rat_numeral_divide floor_rat_one_divide

lemma flags_example: "map (row_flag [row ''A'' 1, row ''B'' 7, row ''A'' 2]) [row ''A'' 1, row ''B'' 7, row ''A'' 2] = [False, False, False]"
  by (simp add: row_flag_def indicator_values_def row_def iqr_outlier_def quantile_eval)

theorem detector_frame_witness:
  "detect_outliers_iqr (DataFrame [row ''A'' 1, row ''B'' 7, row ''A'' 2])
     = Inr \<lparr>observations = Some [row ''A'' 1, row ''B'' 7, row ''A'' 2],
            is_outlier = Some [False, False, False]\<rparr>"
proof -
  let ?rows = "[row ''A'' 1, row ''B'' 7, row ''A'' 2]"
  let ?df = "DataFrame ?rows"
  have obs: "observations ?df = Some ?rows"
    by (simp add: DataFrame_def)
  from detector_frame [of ?df] obs obtain fl where
    fl: "detect_outliers_iqr ?df = Inr (?df\<lparr>is_outlier := Some fl\<rparr>)" and "length fl = 3"
    by auto
  have "detect_outliers_iqr ?df = Inr (?df\<lparr>is_outlier := Some (map (row_flag ?rows) ?rows)\<rparr>)"
    using obs by (rule detect_closed_form)
  then have "detect_outliers_iqr ?df = Inr (?df\<lparr>is_outlier := Some [False, False, False]\<rparr>)"
    by (simp only: flags_example)
  with fl have "fl = [False, False, False]"
    by (simp add: DataFrame_def)
  with fl show ?thesis
    by (simp add: DataFrame_def)
qed

text \<open>
  Claim C6. Running the detector on its own result changes nothing: the second run gives
  the frame of the first, flags included (and a run that raises, raises the same way when
  composed with itself).
\<close>

theorem detector_idempotent:
  "(case detect_outliers_iqr df of Inl e \<Rightarrow> Inl e | Inr df' \<Rightarrow> detect_outliers_iqr df')
     = detect_outliers_iqr df \<and>
   (\<forall>rows. observations df = Some rows \<longrightarrow>
      (\<exists>df'. detect_outliers_iqr df = Inr df' \<and> detect_outliers_iqr df' = Inr df' \<and>
             is_outlier df' \<noteq> None))"
proof (cases "observations df")
  case None
  then show ?thesis by (simp add: detect_KeyError)
next
  case (Some rows)
  let ?df' = "df\<lparr>is_outlier := Some (map (row_flag rows) rows)\<rparr>"
  have 1: "detect_outliers_iqr df = Inr ?df'"
    using Some by (rule detect_closed_form)
  have "observations ?df' = Some rows"
    using Some by simp
  then have 2: "detect_outliers_iqr ?df' = Inr ?df'"
    by (simp add: detect_closed_form)
  show ?thesis
    using Some 1 2 by simp
qed

lemma indicator_flags:
  "loc (map (\<lambda>r. indicator_code r = A) rows) (map (row_flag rows) rows)
     = map (iqr_outlier (indicator_values rows A)) (indicator_values rows A)"
proof -
  have "map (row_flag rows) (filter (\<lambda>r. indicator_code r = A) rows)
          = map (\<lambda>r. iqr_outlier (indicator_values rows A) (value r))
              (filter (\<lambda>r. indicator_code r = A) rows)"
    by (rule map_cong) (auto simp: row_flag_def)
  then show ?thesis
    by (simp add: loc_map indicator_values_def comp_def)
qed

theorem detector_idempotent_witness:
  "detect_outliers_iqr (DataFrame alone_rows)
     = Inr \<lparr>observations = Some alone_rows,
            is_outlier = Some [False, False, False, False, True]\<rparr> \<and>
   detect_outliers_iqr \<lparr>observations = Some alone_rows,
                        is_outlier = Some [False, False, False, False, True]\<rparr>
     = Inr \<lparr>observations = Some alone_rows,
            is_outlier = Some [False, False, False, False, True]\<rparr>"
proof -
  let ?D = "\<lparr>observations = Some alone_rows,
             is_outlier = Some [False, False, False, False, True]\<rparr>"
  have obs: "observations (DataFrame alone_rows) = Some alone_rows"
    by (simp add: DataFrame_def alone_rows_def)
  have flags: "map (row_flag alone_rows) alone_rows = [False, False, False, False, True]"
    by (simp add: alone_rows_def row_flag_def indicator_values_def row_def iqr_outlier_def
          quantile_eval)
  have first: "detect_outliers_iqr (DataFrame alone_rows) = Inr ?D"
    by (simp add: detect_closed_form [OF obs] flags) (simp add: DataFrame_def alone_rows_def)
  from detector_idempotent [of "DataFrame alone_rows"] obs obtain df' where
    "detect_outliers_iqr (DataFrame alone_rows) = Inr df'" and "detect_outliers_iqr df' = Inr df'"
    by blast
  with first show ?thesis
    by simp
qed

text \<open>
  Claim C3. When the values of an indicator's records are
  \<open>10, 12, 12, 13, 12, 11, 14, 13, 15, 102\<close> in this order, the detector flags the record
  with value 102 and no other record of that indicator, whatever other indicators the frame
  holds.
\<close>

theorem spec_example_flags:
  assumes "observations df = Some rows"
    and "indicator_values rows A = [10, 12, 12, 13, 12, 11, 14, 13, 15, 102]"
  shows "\<exists>fl. detect_outliers_iqr df = Inr (df\<lparr>is_outlier := Some fl\<rparr>) \<and>
              length fl = length rows \<and>
              loc (map (\<lambda>r. indicator_code r = A) rows) fl =
                [False, False, False, False, False, False, False, False, False, True]"
proof -
  have "map (iqr_outlier [10, 12, 12, 13, 12, 11, 14, 13, 15, 102])
          [10, 12, 12, 13, 12, 11, 14, 13, 15, 102]
        = [False, False, False, False, False, False, False, False, False, True]"
    by (simp add: iqr_outlier_def quantile_eval)
  then have "loc (map (\<lambda>r. indicator_code r = A) rows) (map (row_flag rows) rows) =
                [False, False, False, False, False, False, False, False, False, True]"
    by (simp only: indicator_flags assms(2))
  then show ?thesis
    using detect_closed_form [OF assms(1)] by (intro exI [of _ "map (row_flag rows) rows"]) simp
qed

theorem spec_example_flags_witness:
  "\<exists>fl. detect_outliers_iqr (DataFrame spec_rows)
           = Inr \<lparr>observations = Some spec_rows, is_outlier = Some fl\<rparr> \<and>
         length fl = 12 \<and>
         loc (map (\<lambda>r. indicator_code r = ''A'') spec_rows) fl =
           [False, False, False, False, False, False, False, False, False, True]"
proof -
  have obs: "observations (DataFrame spec_rows) = Some spec_rows"
    by (simp add: DataFrame_def spec_rows_def)
  have vals: "indicator_values spec_rows ''A'' = [10, 12, 12, 13, 12, 11, 14, 13, 15, 102]"
    by (simp add: indicator_values_def spec_rows_def row_def)
  have df: "DataFrame spec_rows\<lparr>is_outlier := Some fl\<rparr>
              = \<lparr>observations = Some spec_rows, is_outlier = Some fl\<rparr>" for fl
    by (simp add: DataFrame_def spec_rows_def)
  have len: "length spec_rows = 12"
    by (simp add: spec_rows_def)
  show ?thesis
    using spec_example_flags [OF obs vals] by (simp only: df len)
qed











text \<open>
  Claim C7. The flags of the records of an indicator \<open>A\<close> are the same in any two frames
  in which the records of \<open>A\<close> have the same values in the same order, whatever records of
  other indicators the frames hold.
\<close>

theorem partition_independence:
  assumes "observations df1 = Some rows1" and "observations df2 = Some rows2"
    and "indicator_values rows1 A = indicator_values rows2 A"
  shows "\<exists>fl1 fl2.
           detect_outliers_iqr df1 = Inr (df1\<lparr>is_outlier := Some fl1\<rparr>) \<and>
           detect_outliers_iqr df2 = Inr (df2\<lparr>is_outlier := Some fl2\<rparr>) \<and>
           length fl1 = length rows1 \<and> length fl2 = length rows2 \<and>
           loc (map (\<lambda>r. indicator_code r = A) rows1) fl1 =
             loc (map (\<lambda>r. indicator_code r = A) rows2) fl2"
proof -
  have "loc (map (\<lambda>r. indicator_code r = A) rows1) (map (row_flag rows1) rows1) =
          loc (map (\<lambda>r. indicator_code r = A) rows2) (map (row_flag rows2) rows2)"
    by (simp only: indicator_flags assms(3))
  then show ?thesis
    using detect_closed_form [OF assms(1)] detect_closed_form [OF assms(2)]
    by (intro exI [of _ "map (row_flag rows1) rows1"] exI [of _ "map (row_flag rows2) rows2"]) simp
qed

theorem partition_independence_witness:
  "\<exists>fl1 fl2.
     detect_outliers_iqr (DataFrame mixed_rows)
       = Inr \<lparr>observations = Some mixed_rows, is_outlier = Some fl1\<rparr> \<and>
     detect_outliers_iqr (DataFrame alone_rows)
       = Inr \<lparr>observations = Some alone_rows, is_outlier = Some fl2\<rparr> \<and>
     length fl1 = 10 \<and> length fl2 = 5 \<and>
     loc (map (\<lambda>r. indicator_code r = ''A'') mixed_rows) fl1 = fl2"
proof -
  have obs: "observations (DataFrame mixed_rows) = Some mixed_rows"
    "observations (DataFrame alone_rows) = Some alone_rows"
    by (simp_all add: DataFrame_def mixed_rows_def alone_rows_def)
  have vals: "indicator_values mixed_rows ''A'' = indicator_values alone_rows ''A''"
    by (simp add: indicator_values_def mixed_rows_def alone_rows_def row_def)
  have df: "DataFrame mixed_rows\<lparr>is_outlier := Some fl\<rparr>
              = \<lparr>observations = Some mixed_rows, is_outlier = Some fl\<rparr>"
    "DataFrame alone_rows\<lparr>is_outlier := Some fl\<rparr>
              = \<lparr>observations = Some alone_rows, is_outlier = Some fl\<rparr>" for fl
    by (simp_all add: DataFrame_def mixed_rows_def alone_rows_def)
  have len: "length mixed_rows = 10" "length alone_rows = 5"
    by (simp_all add: mixed_rows_def alone_rows_def)
  have all: "loc (map (\<lambda>r. indicator_code r = ''A'') alone_rows) fl = fl" if "length fl = 5" for fl
    using that by (auto simp: loc_def alone_rows_def row_def length_Suc_conv eval_nat_numeral)
  from partition_independence [OF obs vals]
  show ?thesis
    by (simp only: df len) (metis all)
qed

subsection \<open>Fetching\<close>

lemma parsed_Nil: "parsed E t [] = []"
  by (simp add: parsed_def)

lemma parsed_append: "parsed E t (xs @ ys) = parsed E t xs @ parsed E t ys"
  by (simp add: parsed_def)

lemma entries_loop_parsed:
  "\<forall>e\<in>set pre. parses E t e \<Longrightarrow>
     entries_loop E t (pre @ rest) all_data = entries_loop E t rest (all_data @ parsed E t pre)"
proof (induction pre arbitrary: all_data)
  case Nil
  show ?case by (simp add: parsed_Nil)
next
  case (Cons e pre)
  from Cons.prems have e: "parses E t e" and pre: "\<forall>e\<in>set pre. parses E t e"
    by simp_all
  show ?case
  proof (cases "entry_observation E t e")
    case (Inl x)
    with e show ?thesis by (simp add: parses_def)
  next
    case (Inr r)
    then show ?thesis
      using Cons.IH [OF pre] by (cases r) (simp_all add: parsed_def)
  qed
qed

lemma entries_loop_raises:
  "entry_observation E t bad = Inl x \<Longrightarrow> entries_loop E t (bad # post) all_data = (Some x, all_data)"
  by simp

lemma entries_loop_prefix:
  assumes "\<forall>e\<in>set pre. parses E t e" and "entry_observation E t bad = Inl x"
  shows "entries_loop E t (pre @ bad # post) all_data = (Some x, all_data @ parsed E t pre)"
  using entries_loop_parsed [OF assms(1)] assms(2) by simp

lemma entries_loop_all:
  assumes "\<forall>e\<in>set es. parses E t e"
  shows "entries_loop E t es all_data = (None, all_data @ parsed E t es)"
  using entries_loop_parsed [OF assms, of "[]"] by simp

lemma entries_loop_takeWhile:
  "snd (entries_loop E t es all_data) = all_data @ parsed E t (takeWhile (parses E t) es)"
proof (cases "\<forall>e\<in>set es. parses E t e")
  case True
  then have tw: "takeWhile (parses E t) es = es"
    by (simp add: takeWhile_eq_all_conv)
  show ?thesis
    by (subst tw) (simp add: entries_loop_all [OF True])
next
  case False
  then obtain bad post where
    split: "es = takeWhile (parses E t) es @ bad # post" and bad: "\<not> parses E t bad"
    by (metis (no_types, lifting) takeWhile_dropWhile_id dropWhile_eq_Nil_conv
        hd_dropWhile list.exhaust_sel)
  from bad obtain x where x: "entry_observation E t bad = Inl x"
    by (auto simp: parses_def split: sum.splits)
  have pre: "\<forall>e\<in>set (takeWhile (parses E t) es). parses E t e"
    by (auto dest: set_takeWhileD)
  have "entries_loop E t (takeWhile (parses E t) es @ bad # post) all_data
          = (Some x, all_data @ parsed E t (takeWhile (parses E t) es))"
    using pre x by (rule entries_loop_prefix)
  with split show ?thesis
    by simp
qed

lemma try_body_entries:
  "future_result E i = Inr (JArr (meta # JArr entries # others)) \<Longrightarrow>
     try_body E (i, t) all_data = entries_loop E t entries all_data"
  by (simp add: try_body_def)

lemma entries_loop_state:
  "entries_loop E t es all_data =
     (fst (entries_loop E t es []), all_data @ snd (entries_loop E t es []))"
proof (induction es arbitrary: all_data)
  case Nil
  show ?case by simp
next
  case (Cons e es)
  show ?case
  proof (cases "entry_observation E t e")
    case (Inl x)
    then show ?thesis by simp
  next
    case (Inr r)
    show ?thesis
    proof (cases r)
      case None
      with Inr show ?thesis using Cons.IH [of all_data] by simp
    next
      case (Some ob)
      with Inr show ?thesis
        using Cons.IH [of "all_data @ [ob]"] Cons.IH [of "[ob]"] by simp
    qed
  qed
qed

lemma try_body_state:
  "try_body E ft all_data = (fst (try_body E ft []), all_data @ snd (try_body E ft []))"
proof -
  obtain i t where ft: "ft = (i, t)" by (cases ft)
  show ?thesis
    unfolding ft try_body_def
    using entries_loop_state [of E t _ all_data]
    by (auto split: sum.splits)
qed

lemma fst_collect: "fst (collect E ft (all_data, printed)) = all_data @ contribution E ft"
proof -
  obtain i cc grp ic iname where ft: "ft = (i, cc, grp, ic, iname)"
    by (cases ft) auto
  obtain r d where td: "try_body E ft [] = (r, d)"
    by (cases "try_body E ft []")
  have "try_body E ft all_data = (r, all_data @ d)"
    using try_body_state [of E ft all_data] td by simp
  then show ?thesis
    using td by (cases r) (simp_all add: collect_def ft contribution_def)
qed

lemma fst_fold_collect:
  "fst (fold (collect E) fts st) = fst st @ concat (map (contribution E) fts)"
proof (induction fts arbitrary: st)
  case Nil
  show ?case by simp
next
  case (Cons ft fts)
  obtain a p where st: "st = (a, p)" by (cases st)
  show ?case
    using Cons.IH [of "collect E ft st"] fst_collect [of E ft a p] by (simp add: st)
qed

lemma fst_fetch_loop: "fst (fetch_loop E fs) = concat (map (contribution E) (enumerate 0 fs))"
  by (simp add: fetch_loop_def fst_fold_collect)

lemma contribution_entries:
  "future_result E i = Inr (JArr (meta # JArr entries # others)) \<Longrightarrow>
     contribution E (i, t) = parsed E t (takeWhile (parses E t) entries)"
  by (simp add: contribution_def try_body_entries entries_loop_takeWhile)

lemma enumerate_split:
  "i < length fs \<Longrightarrow>
     enumerate 0 fs = take i (enumerate 0 fs) @ (i, fs ! i) # drop (Suc i) (enumerate 0 fs)"
  by (metis add_0 id_take_nth_drop length_enumerate nth_enumerate_eq)

lemma contribution_raises:
  "future_result E i = Inl e \<Longrightarrow> contribution E (i, t) = []"
  by (simp add: contribution_def try_body_def)

lemma concat_map_split:
  assumes "i < length xs"
  shows "concat (map f xs) = concat (map f (take i xs)) @ f (xs ! i) @ concat (map f (drop (Suc i) xs))"
proof -
  have "xs = take i xs @ xs ! i # drop (Suc i) xs"
    using assms by (rule id_take_nth_drop)
  then have "concat (map f xs) = concat (map f (take i xs @ xs ! i # drop (Suc i) xs))"
    by (rule arg_cong [where f = "\<lambda>l. concat (map f l)"])
  then show ?thesis
    by simp
qed

lemma enumerate_take: "i \<le> length fs \<Longrightarrow> enumerate 0 (take i fs) = take i (enumerate 0 fs)"
  by (simp add: enumerate_eq_zip take_zip take_upt min_def)

lemma fst_fetch_loop_split:
  assumes "i < length fs"
  shows "fst (fetch_loop E fs) =
           fst (fetch_loop E (take i fs)) @ contribution E (i, fs ! i) @
           concat (map (contribution E) (drop (Suc i) (enumerate 0 fs)))"
proof -
  have "i < length (enumerate 0 fs)"
    using assms by simp
  then show ?thesis
    using assms
    by (simp add: fst_fetch_loop enumerate_take concat_map_split [of i "enumerate 0 fs"]
          nth_enumerate_eq)
qed

lemma rest_empty:
  assumes "\<And>i. i \<noteq> 0 \<Longrightarrow> \<exists>x. future_result E i = Inl x"
  shows "concat (map (contribution E) (drop (Suc 0) (enumerate 0 fs))) = []"
proof -
  have "contribution E ft = []" if "ft \<in> set (drop (Suc 0) (enumerate 0 fs))" for ft
  proof -
    from that have "ft \<in> set (enumerate (Suc 0) (tl fs))"
      by (cases fs) (simp_all add: enumerate_simps)
    then have "fst ft \<noteq> 0"
      by (auto simp: in_set_enumerate_eq)
    with assms obtain x where "future_result E (fst ft) = Inl x"
      by blast
    then show ?thesis
      by (cases ft) (simp add: contribution_raises)
  qed
  then show ?thesis
    by simp
qed

lemma all_fail:
  assumes "\<And>i. \<exists>x. future_result E i = Inl x"
  shows "fst (fetch_loop E fs) = []"
proof -
  have "contribution E ft = []" for ft
    using assms [of "fst ft"] by (cases ft) (auto simp: contribution_raises)
  then show ?thesis
    by (simp add: fst_fetch_loop)
qed

lemma first_future:
  "futures (tasks COUNTRY_GROUPS) INDICATORS ! 0 = (''USA'', ''G7'', ''NY.GDP.MKTP.KD.ZG'', ''GDP Growth (%)'')"
  by (simp add: futures_def tasks_def COUNTRY_GROUPS_def INDICATORS_def)

lemma length_config_futures: "length (futures (tasks COUNTRY_GROUPS) INDICATORS) = 96"
  by (simp add: length_futures length_tasks COUNTRY_GROUPS_def INDICATORS_def)

lemma decimal_examples:
  "decimal ''2001'' = Some 2001" "decimal ''2002'' = Some 2002" "decimal ''20x3'' = None"
  "decimal ''2004'' = Some 2004" "decimal ''1999'' = Some 1999"
  by (simp_all add: decimal_def)

lemma broken_entries:
  "entry_observation broken_env (''USA'', ''G7'', ''NY.GDP.MKTP.KD.ZG'', ''GDP Growth (%)'')
     (entry ''United States'' ''US'' ''2001'' (JFloat (5 / 2)))
     = Inr (Some (observed ''United States'' ''US'' 2001 (5 / 2)))"
  "entry_observation broken_env (''USA'', ''G7'', ''NY.GDP.MKTP.KD.ZG'', ''GDP Growth (%)'')
     (entry ''United States'' ''US'' ''2002'' JNull) = Inr None"
  "entry_observation broken_env (''USA'', ''G7'', ''NY.GDP.MKTP.KD.ZG'', ''GDP Growth (%)'')
     (entry ''United States'' ''US'' ''20x3'' (JFloat 3)) = Inl ValueError"
  "entry_observation broken_env (''USA'', ''G7'', ''NY.GDP.MKTP.KD.ZG'', ''GDP Growth (%)'')
     (entry ''United States'' ''US'' ''2004'' (JFloat (7 / 2)))
     = Inr (Some (observed ''United States'' ''US'' 2004 (7 / 2)))"
  by (simp_all add: entry_observation_def entry_def broken_env_def example_env_def
        decimal_examples observed_def)

lemma broken_future:
  "future_result broken_env 0 =
      Inr (JArr (JObj [(''page'', JInt 1)] #
           JArr [entry ''United States'' ''US'' ''2001'' (JFloat (5 / 2)),
                 entry ''United States'' ''US'' ''2002'' JNull,
                 entry ''United States'' ''US'' ''20x3'' (JFloat 3),
                 entry ''United States'' ''US'' ''2004'' (JFloat (7 / 2))] # []))"
  by (simp add: broken_env_def example_env_def broken_response_def)

lemma broken_contribution:
  "contribution broken_env (0, ''USA'', ''G7'', ''NY.GDP.MKTP.KD.ZG'', ''GDP Growth (%)'')
     = [observed ''United States'' ''US'' 2001 (5 / 2)]"
  by (simp add: contribution_entries [OF broken_future] parses_def parsed_def broken_entries)

lemma rest_offline:
  "concat (map (contribution broken_env) (drop (Suc 0) (enumerate 0 fs))) = []"
  by (rule rest_empty) (simp add: broken_env_def example_env_def)

lemma entry_observation_cases:
  "entry_observation E (cc, grp, ic, iname) e =
     (case getitem e ''value'' of Inl x \<Rightarrow> Inl x | Inr v \<Rightarrow>
      if v = JNull then Inr None else
      case getitem e ''country'' of Inl x \<Rightarrow> Inl x | Inr c \<Rightarrow>
      case getitem c ''value'' of Inl x \<Rightarrow> Inl x | Inr c_value \<Rightarrow>
      case getitem c ''id'' of Inl x \<Rightarrow> Inl x | Inr c_id \<Rightarrow>
      case getitem e ''date'' of Inl x \<Rightarrow> Inl x | Inr d \<Rightarrow>
      case py_int E d of Inl x \<Rightarrow> Inl x | Inr y \<Rightarrow>
      case py_float E v of Inl x \<Rightarrow> Inl x | Inr r \<Rightarrow>
      Inr (Some \<lparr>country = c_value, country_code = c_id, country_group = grp,
                 indicator_code = ic, indicator_name = iname, year = y, value = r\<rparr>))"
  by (simp add: entry_observation_def)

lemma null_value_skipped:
  "getitem e ''value'' = Inr JNull \<Longrightarrow> entry_observation E t e = Inr None"
  by (cases t) (simp add: entry_observation_def)

lemma unparsable_raises:
  assumes "unparsable E e"
  shows "\<not> parses E t e"
proof -
  obtain cc grp ic iname where t: "t = (cc, grp, ic, iname)"
    by (cases t) auto
  from assms obtain v where v: "getitem e ''value'' = Inr v" and nn: "v \<noteq> JNull"
    and bad: "(case getitem e ''date'' of Inl x \<Rightarrow> False | Inr d \<Rightarrow> isl (py_int E d)) \<or>
           isl (py_float E v)"
    by (cases "getitem e ''value''") (simp_all add: unparsable_def)
  have "isl (entry_observation E (cc, grp, ic, iname) e)"
  proof (cases "getitem e ''country''")
    case (Inl x)
    with v nn show ?thesis by (simp add: entry_observation_cases)
  next
    case c: (Inr c)
    show ?thesis
    proof (cases "getitem c ''value''")
      case (Inl x)
      with v nn c show ?thesis by (simp add: entry_observation_cases)
    next
      case cv: (Inr c_value)
      show ?thesis
      proof (cases "getitem c ''id''")
        case (Inl x)
        with v nn c cv show ?thesis by (simp add: entry_observation_cases)
      next
        case ci: (Inr c_id)
        show ?thesis
        proof (cases "getitem e ''date''")
          case (Inl x)
          with v nn c cv ci show ?thesis by (simp add: entry_observation_cases)
        next
          case d: (Inr d)
          show ?thesis
          proof (cases "py_int E d")
            case (Inl x)
            with v nn c cv ci d show ?thesis by (simp add: entry_observation_cases)
          next
            case y: (Inr y)
            with bad d have "isl (py_float E v)"
              by simp
            then obtain x where "py_float E v = Inl x"
              by (cases "py_float E v") simp_all
            with v nn c cv ci d y show ?thesis by (simp add: entry_observation_cases)
          qed
        qed
      qed
    qed
  qed
  then show ?thesis
    by (cases "entry_observation E (cc, grp, ic, iname) e") (simp_all add: parses_def t)
qed

lemma takeWhile_cut:
  assumes "k < length xs" and "\<not> P (xs ! k)"
  shows "takeWhile P xs = takeWhile P (take k xs)"
proof -
  have xs: "xs = take k xs @ xs ! k # drop (Suc k) xs"
    using assms(1) by (rule id_take_nth_drop)
  show ?thesis
  proof (cases "\<forall>x\<in>set (take k xs). P x")
    case True
    then have "takeWhile P (take k xs @ xs ! k # drop (Suc k) xs) = take k xs"
      using assms(2) by (simp add: takeWhile_append2)
    moreover have "takeWhile P (take k xs) = take k xs"
      using True by (simp add: takeWhile_eq_all_conv)
    ultimately show ?thesis
      using xs by metis
  next
    case False
    then obtain x where "x \<in> set (take k xs)" "\<not> P x"
      by blast
    then have "takeWhile P (take k xs @ xs ! k # drop (Suc k) xs) = takeWhile P (take k xs)"
      by (rule takeWhile_append1)
    then show ?thesis
      using xs by metis
  qed
qed

text \<open>
  Claim C1, as amended. When an entry of a response has a value that is not null and an
  unparsable year or value, that entry and every later entry of the same response are
  dropped; of the entries before it, those up to the first that raises are processed into
  observations, which is all of them when none raises. The futures before and after
  contribute as they would on their own, so the exception does not end the run. An entry
  whose value is null is skipped before its date is read.
\<close>

theorem unparsable_entry_ends_response:
  assumes "i < length fs"
    and "future_result E i = Inr (JArr (meta # JArr entries # others))"
    and "k < length entries"
    and "unparsable E (entries ! k)"
  shows "\<exists>kept.
           fst (fetch_loop E fs) =
             fst (fetch_loop E (take i fs)) @ parsed E (fs ! i) kept @
             concat (map (contribution E) (drop (Suc i) (enumerate 0 fs))) \<and>
           kept = takeWhile (parses E (fs ! i)) (take k entries) \<and>
           ((\<forall>e\<in>set (take k entries). parses E (fs ! i) e) \<longrightarrow> kept = take k entries) \<and>
           (\<forall>e. getitem e ''value'' = Inr JNull \<longrightarrow> entry_observation E (fs ! i) e = Inr None)"
proof -
  have "\<not> parses E (fs ! i) (entries ! k)"
    using assms(4) by (rule unparsable_raises)
  with assms(3) have cut: "takeWhile (parses E (fs ! i)) entries =
      takeWhile (parses E (fs ! i)) (take k entries)"
    by (rule takeWhile_cut)
  have "fst (fetch_loop E fs) =
      fst (fetch_loop E (take i fs)) @
      parsed E (fs ! i) (takeWhile (parses E (fs ! i)) (take k entries)) @
      concat (map (contribution E) (drop (Suc i) (enumerate 0 fs)))"
    using fst_fetch_loop_split [OF assms(1), of E] contribution_entries [OF assms(2), of "fs ! i"]
    by (simp only: cut)
  moreover have "takeWhile (parses E (fs ! i)) (take k entries) = take k entries"
    if "\<forall>e\<in>set (take k entries). parses E (fs ! i) e"
    using that by (simp add: takeWhile_eq_all_conv)
  ultimately show ?thesis
    by (simp add: null_value_skipped)
qed

theorem unparsable_entry_ends_response_witness:
  "unparsable broken_env (entry ''United States'' ''US'' ''20x3'' (JFloat 3)) \<and>
   fst (fetch_loop broken_env (futures (tasks COUNTRY_GROUPS) INDICATORS))
     = [observed ''United States'' ''US'' 2001 (5 / 2)]"
proof -
  let ?fs = "futures (tasks COUNTRY_GROUPS) INDICATORS"
  let ?es = "[entry ''United States'' ''US'' ''2001'' (JFloat (5 / 2)),
              entry ''United States'' ''US'' ''2002'' JNull,
              entry ''United States'' ''US'' ''20x3'' (JFloat 3),
              entry ''United States'' ''US'' ''2004'' (JFloat (7 / 2))]"
  have i: "0 < length ?fs"
    by (simp add: length_config_futures)
  have k: "2 < length ?es"
    by simp
  have bad: "unparsable broken_env (entry ''United States'' ''US'' ''20x3'' (JFloat 3))"
    by (simp add: unparsable_def entry_def broken_env_def example_env_def decimal_examples)
  then have bad': "unparsable broken_env (?es ! 2)"
    by simp
  from unparsable_entry_ends_response [OF i broken_future k bad']
  have "fst (fetch_loop broken_env ?fs) = [observed ''United States'' ''US'' 2001 (5 / 2)]"
    by (simp add: first_future rest_offline fetch_loop_def parses_def parsed_def broken_entries)
  with bad show ?thesis
    by simp
qed

text \<open>
  The claim as written fails: the entry of 2004 parses on its own, it follows the entry
  with the unparsable date \<open>20x3\<close> in the response, and the frame holds the observation of
  2001 only.
\<close>

theorem parse_error_misses_later_entry:
  "entry_observation broken_env (futures (tasks COUNTRY_GROUPS) INDICATORS ! 0)
     (entry ''United States'' ''US'' ''2004'' (JFloat (7 / 2)))
     = Inr (Some (observed ''United States'' ''US'' 2004 (7 / 2))) \<and>
   future_result broken_env 0 = Inr broken_response \<and>
   getitem_1 broken_response =
     Inr (JArr [entry ''United States'' ''US'' ''2001'' (JFloat (5 / 2)),
                entry ''United States'' ''US'' ''2002'' JNull,
                entry ''United States'' ''US'' ''20x3'' (JFloat 3),
                entry ''United States'' ''US'' ''2004'' (JFloat (7 / 2))]) \<and>
   fetch_data broken_env COUNTRY_GROUPS INDICATORS
     = \<lparr>observations = Some [observed ''United States'' ''US'' 2001 (5 / 2)],
        is_outlier = None\<rparr>"
proof -
  let ?fs = "futures (tasks COUNTRY_GROUPS) INDICATORS"
  have "fst (fetch_loop broken_env ?fs) =
          contribution broken_env (0, ?fs ! 0) @
          concat (map (contribution broken_env) (drop (Suc 0) (enumerate 0 ?fs)))"
    using fst_fetch_loop_split [of 0 ?fs broken_env]
    by (simp add: length_config_futures fetch_loop_def)
  also have "\<dots> = contribution broken_env (0, ?fs ! 0)"
    by (simp add: rest_offline)
  also have "\<dots> = [observed ''United States'' ''US'' 2001 (5 / 2)]"
    by (simp add: first_future broken_contribution)
  finally have "fst (fetch_loop broken_env ?fs) = [observed ''United States'' ''US'' 2001 (5 / 2)]" .
  then show ?thesis
    by (simp add: fetch_data_def DataFrame_def first_future broken_entries)
       (simp add: broken_env_def example_env_def broken_response_def)
qed

text \<open>
  Claim C10. When an entry of a response raises after entries that did not, the \<open>try\<close>
  body ends with that exception and \<open>all_data\<close> extended by the observations of the
  earlier entries; the handler prints one line and keeps \<open>all_data\<close>; the entries after
  the failing one contribute nothing, and the returned collection holds the earlier
  observations between those of the futures before and after.
\<close>

theorem earlier_entries_kept:
  assumes "i < length fs"
    and "future_result E i = Inr (JArr (meta # JArr (pre @ bad # post) # others))"
    and "\<forall>e\<in>set pre. parses E (fs ! i) e"
    and "entry_observation E (fs ! i) bad = Inl x"
  shows "try_body E (i, fs ! i) all_data = (Some x, all_data @ parsed E (fs ! i) pre) \<and>
         collect E (i, fs ! i) (all_data, printed) =
           (all_data @ parsed E (fs ! i) pre,
            printed @ [(fst (snd (snd (fs ! i))), fst (fs ! i), x)]) \<and>
         fst (fetch_loop E fs) =
           fst (fetch_loop E (take i fs)) @ parsed E (fs ! i) pre @
           concat (map (contribution E) (drop (Suc i) (enumerate 0 fs)))"
proof -
  have body: "try_body E (i, fs ! i) a = (Some x, a @ parsed E (fs ! i) pre)" for a
    using try_body_entries [OF assms(2)] entries_loop_prefix [OF assms(3) assms(4)] by simp
  obtain cc grp ic iname where t: "fs ! i = (cc, grp, ic, iname)"
    by (cases "fs ! i") auto
  have coll: "collect E (i, fs ! i) (all_data, printed) =
           (all_data @ parsed E (fs ! i) pre,
            printed @ [(fst (snd (snd (fs ! i))), fst (fs ! i), x)])"
    using body [of all_data] by (simp add: collect_def t)
  have "contribution E (i, fs ! i) = parsed E (fs ! i) pre"
    using body [of "[]"] by (simp add: contribution_def)
  then show ?thesis
    using body coll fst_fetch_loop_split [OF assms(1), of E] by simp
qed

theorem earlier_entries_kept_witness:
  "collect broken_env (0, ''USA'', ''G7'', ''NY.GDP.MKTP.KD.ZG'', ''GDP Growth (%)'') ([], [])
     = ([observed ''United States'' ''US'' 2001 (5 / 2)],
        [(''NY.GDP.MKTP.KD.ZG'', ''USA'', ValueError)])"
proof -
  let ?fs = "futures (tasks COUNTRY_GROUPS) INDICATORS"
  let ?pre = "[entry ''United States'' ''US'' ''2001'' (JFloat (5 / 2)),
               entry ''United States'' ''US'' ''2002'' JNull]"
  have i: "0 < length ?fs"
    by (simp add: length_config_futures)
  have r: "future_result broken_env 0 =
      Inr (JArr (JObj [(''page'', JInt 1)] #
           JArr (?pre @ entry ''United States'' ''US'' ''20x3'' (JFloat 3) #
                 [entry ''United States'' ''US'' ''2004'' (JFloat (7 / 2))]) # []))"
    using broken_future by simp
  have pre: "\<forall>e\<in>set ?pre. parses broken_env (?fs ! 0) e"
    by (simp add: first_future parses_def broken_entries)
  have bad: "entry_observation broken_env (?fs ! 0)
      (entry ''United States'' ''US'' ''20x3'' (JFloat 3)) = Inl ValueError"
    by (simp add: first_future broken_entries)
  show ?thesis
    using earlier_entries_kept [OF i r pre bad, of "[]" "[]"]
    by (simp add: first_future parsed_def broken_entries)
qed

lemma parsed_mem:
  "ob \<in> set (parsed E t es) \<Longrightarrow> \<exists>e\<in>set es. entry_observation E t e = Inr (Some ob)"
  by (auto simp: parsed_def split: sum.splits option.splits)

lemma entries_loop_mem:
  assumes "ob \<in> set (snd (entries_loop E t es []))"
  shows "\<exists>e\<in>set es. entry_observation E t e = Inr (Some ob)"
proof -
  from assms have "ob \<in> set (parsed E t (takeWhile (parses E t) es))"
    by (simp add: entries_loop_takeWhile)
  then obtain e where "e \<in> set (takeWhile (parses E t) es)"
    and "entry_observation E t e = Inr (Some ob)"
    using parsed_mem by blast
  then show ?thesis
    by (blast dest: set_takeWhileD)
qed

lemma str_entry_raises: "entry_observation E t (JStr s) = Inl TypeError"
  by (cases t) (simp add: entry_observation_def)

lemma py_iter_cases:
  "py_iter d = Inr es \<Longrightarrow> d = JArr es \<or> (\<forall>e\<in>set es. \<exists>s. e = JStr s)"
  by (cases d) auto

lemma getitem_1_cases:
  "getitem_1 data = Inr d \<Longrightarrow>
     (\<exists>xs. data = JArr xs \<and> 1 < length xs \<and> xs ! 1 = d) \<or> (\<exists>s. d = JStr s)"
  by (cases data) (auto split: if_splits)

lemma contribution_cases:
  "contribution E (i, t) =
     (case future_result E i of Inl x \<Rightarrow> [] | Inr data \<Rightarrow>
      case py_len data of Inl x \<Rightarrow> [] | Inr n \<Rightarrow>
      if n < 2 then [] else
      case getitem_1 data of Inl x \<Rightarrow> [] | Inr d \<Rightarrow>
      case py_iter d of Inl x \<Rightarrow> [] | Inr es \<Rightarrow> snd (entries_loop E t es []))"
  by (simp add: contribution_def try_body_def split: sum.splits)

lemma contribution_mem:
  assumes "ob \<in> set (contribution E (i, t))"
  shows "\<exists>data entries e. future_result E i = Inr (JArr data) \<and> 1 < length data \<and>
           data ! 1 = JArr entries \<and> e \<in> set entries \<and> entry_observation E t e = Inr (Some ob)"
proof -
  obtain data where r: "future_result E i = Inr data"
    using assms by (cases "future_result E i") (simp_all add: contribution_cases)
  obtain n where n: "py_len data = Inr n"
    using assms r by (cases "py_len data") (simp_all add: contribution_cases)
  have n2: "\<not> n < 2"
    using assms r n by (auto simp: contribution_cases)
  obtain d where d: "getitem_1 data = Inr d"
    using assms r n n2 by (cases "getitem_1 data") (simp_all add: contribution_cases)
  obtain es where es: "py_iter d = Inr es"
    using assms r n n2 d by (cases "py_iter d") (simp_all add: contribution_cases)
  have ob: "ob \<in> set (snd (entries_loop E t es []))"
    using assms r n n2 d es by (simp add: contribution_cases)
  from entries_loop_mem [OF ob] obtain e where e: "e \<in> set es"
    "entry_observation E t e = Inr (Some ob)"
    by blast
  then have nostr: "\<not> (\<exists>s. e = JStr s)"
    by (auto simp: str_entry_raises)
  with py_iter_cases [OF es] e(1) have arr: "d = JArr es"
    by blast
  with getitem_1_cases [OF d] obtain xs where "data = JArr xs" "1 < length xs" "xs ! 1 = JArr es"
    by auto
  with r e show ?thesis
    by blast
qed

lemma entry_observation_fields:
  assumes "entry_observation E (cc, grp, ic, iname) e = Inr (Some ob)"
  shows "indicator_code ob = ic \<and> indicator_name ob = iname \<and> country_group ob = grp \<and>
         (\<exists>c d. getitem e ''country'' = Inr c \<and> getitem c ''id'' = Inr (country_code ob) \<and>
                getitem e ''date'' = Inr d \<and> py_int E d = Inr (year ob))"
proof -
  note a = assms [unfolded entry_observation_cases]
  obtain v where v: "getitem e ''value'' = Inr v"
    using a by (cases "getitem e ''value''") simp_all
  have nn: "v \<noteq> JNull"
    using a v by auto
  obtain c where c: "getitem e ''country'' = Inr c"
    using a v nn by (cases "getitem e ''country''") simp_all
  obtain c_value where cv: "getitem c ''value'' = Inr c_value"
    using a v nn c by (cases "getitem c ''value''") simp_all
  obtain c_id where ci: "getitem c ''id'' = Inr c_id"
    using a v nn c cv by (cases "getitem c ''id''") simp_all
  obtain d where d: "getitem e ''date'' = Inr d"
    using a v nn c cv ci by (cases "getitem e ''date''") simp_all
  obtain y where y: "py_int E d = Inr y"
    using a v nn c cv ci d by (cases "py_int E d") simp_all
  obtain r where r: "py_float E v = Inr r"
    using a v nn c cv ci d y by (cases "py_float E v") simp_all
  have "ob = \<lparr>country = c_value, country_code = c_id, country_group = grp,
               indicator_code = ic, indicator_name = iname, year = y, value = r\<rparr>"
    using a v nn c cv ci d y r by simp
  then show ?thesis
    using c ci d y by simp
qed

lemma fetch_loop_mem:
  assumes "ob \<in> set (fst (fetch_loop E fs))"
  shows "\<exists>i<length fs. ob \<in> set (contribution E (i, fs ! i))"
  using assms by (auto simp: fst_fetch_loop in_set_enumerate_eq)

text \<open>
  Claim C9, as amended. Every observation fetched carries an indicator code and name of the
  configured table and a configured group. Its country code and year are copied from the
  response: they are a configured country code and a year within
  \<open>[START_YEAR, END_YEAR]\<close> whenever the entries of the API's responses are; the code
  checks neither.
\<close>

theorem observation_invariant:
  assumes "ob \<in> set (fst (fetch_loop E (futures (tasks groups) inds)))"
  shows "(indicator_code ob, indicator_name ob) \<in> set inds \<and>
         (\<exists>cs. (country_group ob, cs) \<in> set groups) \<and>
         (api_in_range E groups \<longrightarrow>
            (\<exists>cc g cs. country_code ob = JStr cc \<and> (g, cs) \<in> set groups \<and> cc \<in> set cs) \<and>
            START_YEAR \<le> year ob \<and> year ob \<le> END_YEAR)"
proof -
  let ?fs = "futures (tasks groups) inds"
  from fetch_loop_mem [OF assms] obtain i where i: "i < length ?fs"
    and ob: "ob \<in> set (contribution E (i, ?fs ! i))"
    by blast
  obtain cc grp ic iname where t: "?fs ! i = (cc, grp, ic, iname)"
    by (cases "?fs ! i") auto
  from i t have "(cc, grp, ic, iname) \<in> set ?fs"
    by (metis nth_mem)
  then have cfg: "(cc, grp) \<in> set (tasks groups)" "(ic, iname) \<in> set inds"
    by (simp_all add: set_futures)
  from contribution_mem [OF ob] t obtain data entries e where
    resp: "future_result E i = Inr (JArr data)" "1 < length data" "data ! 1 = JArr entries"
      "e \<in> set entries"
    and e: "entry_observation E (cc, grp, ic, iname) e = Inr (Some ob)"
    by auto
  from entry_observation_fields [OF e] obtain c d where
    f: "indicator_code ob = ic" "indicator_name ob = iname" "country_group ob = grp"
    and g: "getitem e ''country'' = Inr c" "getitem c ''id'' = Inr (country_code ob)"
      "getitem e ''date'' = Inr d" "py_int E d = Inr (year ob)"
    by blast
  have 1: "(indicator_code ob, indicator_name ob) \<in> set inds"
    using cfg f by simp
  have 2: "\<exists>cs. (country_group ob, cs) \<in> set groups"
    using cfg f by (auto simp: set_tasks)
  have 3: "(\<exists>cc g cs. country_code ob = JStr cc \<and> (g, cs) \<in> set groups \<and> cc \<in> set cs) \<and>
            START_YEAR \<le> year ob \<and> year ob \<le> END_YEAR" if "api_in_range E groups"
  proof -
    have all: "future_result E i = Inr (JArr data) \<and> 1 < length data \<and> data ! 1 = JArr entries \<and>
        e \<in> set entries \<and> getitem e ''country'' = Inr c \<and>
        getitem c ''id'' = Inr (country_code ob) \<and>
        getitem e ''date'' = Inr d \<and> py_int E d = Inr (year ob)"
      using resp g by simp
    note api = that [unfolded api_in_range_def, rule_format,
        of i data entries e c "country_code ob" d "year ob"]
    from api [OF all] obtain cc' where cc': "country_code ob = JStr cc'"
      "cc' \<in> fst ` set (tasks groups)" and yr: "START_YEAR \<le> year ob" "year ob \<le> END_YEAR"
      by blast
    from cc'(2) obtain g' where "(cc', g') \<in> set (tasks groups)"
      by force
    then obtain cs' where "(g', cs') \<in> set groups" "cc' \<in> set cs'"
      by (auto simp: set_tasks)
    with cc'(1) yr show ?thesis
      by blast
  qed
  from 1 2 3 show ?thesis
    by blast
qed

lemma clean_contribution:
  "contribution clean_env (0, ''USA'', ''G7'', ''NY.GDP.MKTP.KD.ZG'', ''GDP Growth (%)'')
     = [observed ''United States'' ''USA'' 2001 (5 / 2), observed ''United States'' ''USA'' 2004 (7 / 2)]"
  by (simp add: contribution_def try_body_def clean_env_def example_env_def
        entry_observation_def entry_def decimal_examples observed_def)

lemma clean_in_range: "api_in_range clean_env COUNTRY_GROUPS"
  unfolding api_in_range_def
  by (auto simp: clean_env_def example_env_def entry_def decimal_examples START_YEAR_def
        END_YEAR_def tasks_def COUNTRY_GROUPS_def split: if_splits)

theorem observation_invariant_witness:
  "observed ''United States'' ''USA'' 2004 (7 / 2)
     \<in> set (fst (fetch_loop clean_env (futures (tasks COUNTRY_GROUPS) INDICATORS))) \<and>
   (''NY.GDP.MKTP.KD.ZG'', ''GDP Growth (%)'') \<in> set INDICATORS \<and>
   (''G7'', [''USA'', ''GBR'', ''DEU'', ''FRA'', ''ITA'', ''CAN'', ''JPN'']) \<in> set COUNTRY_GROUPS \<and>
   api_in_range clean_env COUNTRY_GROUPS \<and>
   START_YEAR \<le> 2004 \<and> 2004 \<le> END_YEAR"
proof -
  let ?fs = "futures (tasks COUNTRY_GROUPS) INDICATORS"
  let ?ob = "observed ''United States'' ''USA'' 2004 (7 / 2)"
  have "fst (fetch_loop clean_env ?fs) = fst (fetch_loop clean_env (take 0 ?fs)) @
      contribution clean_env (0, ?fs ! 0) @
      concat (map (contribution clean_env) (drop (Suc 0) (enumerate 0 ?fs)))"
    by (rule fst_fetch_loop_split) (simp add: length_config_futures)
  then have mem: "?ob \<in> set (fst (fetch_loop clean_env ?fs))"
    by (simp add: first_future clean_contribution)
  from observation_invariant [OF mem] clean_in_range
  have "START_YEAR \<le> year ?ob \<and> year ?ob \<le> END_YEAR"
    by blast
  with mem clean_in_range show ?thesis
    by (simp add: observed_def INDICATORS_def COUNTRY_GROUPS_def)
qed

lemma stray_contribution:
  "contribution stray_env (0, ''USA'', ''G7'', ''NY.GDP.MKTP.KD.ZG'', ''GDP Growth (%)'')
     = [observed ''United States'' ''US'' 1999 4]"
  by (simp add: contribution_def try_body_def stray_env_def example_env_def
        entry_observation_def entry_def decimal_examples observed_def)

text \<open>
  The claim as written fails: the response names the country \<open>US\<close>, which no group
  lists, and the year 1999, and the observation carries both.
\<close>

theorem observation_outside_configuration:
  "fetch_data stray_env COUNTRY_GROUPS INDICATORS
     = \<lparr>observations = Some [observed ''United States'' ''US'' 1999 4], is_outlier = None\<rparr> \<and>
   country_code (observed ''United States'' ''US'' 1999 4) = JStr ''US'' \<and>
   ''US'' \<notin> fst ` set (tasks COUNTRY_GROUPS) \<and>
   year (observed ''United States'' ''US'' 1999 4) = 1999 \<and> 1999 < START_YEAR"
proof -
  let ?fs = "futures (tasks COUNTRY_GROUPS) INDICATORS"
  have "fst (fetch_loop stray_env ?fs) = fst (fetch_loop stray_env (take 0 ?fs)) @
      contribution stray_env (0, ?fs ! 0) @
      concat (map (contribution stray_env) (drop (Suc 0) (enumerate 0 ?fs)))"
    by (rule fst_fetch_loop_split) (simp add: length_config_futures)
  moreover have "concat (map (contribution stray_env) (drop (Suc 0) (enumerate 0 ?fs))) = []"
    by (rule rest_empty) (simp add: stray_env_def example_env_def)
  ultimately have "fst (fetch_loop stray_env ?fs) = [observed ''United States'' ''US'' 1999 4]"
    by (simp add: first_future stray_contribution fetch_loop_def)
  then show ?thesis
    by (simp add: fetch_data_def DataFrame_def observed_def START_YEAR_def tasks_def
          COUNTRY_GROUPS_def)
qed

subsection \<open>The run\<close>

text \<open>
  Claim C2. When every request fails, \<open>fetch_data\<close> returns the frame of an empty list,
  which has no columns, and the run ends with \<open>KeyError\<close> in \<open>detect_outliers_iqr\<close>
  instead of reaching the load.
\<close>

theorem offline_run_raises:
  "fetch_data offline_env COUNTRY_GROUPS INDICATORS = \<lparr>observations = None, is_outlier = None\<rparr> \<and>
   run offline_env COUNTRY_GROUPS INDICATORS = Inl (KeyError ''indicator_code'')"
proof -
  have "fst (fetch_loop offline_env (futures (tasks COUNTRY_GROUPS) INDICATORS)) = []"
    by (rule all_fail) (simp add: offline_env_def example_env_def)
  then have "fetch_data offline_env COUNTRY_GROUPS INDICATORS
      = \<lparr>observations = None, is_outlier = None\<rparr>"
    by (simp add: fetch_data_def DataFrame_def)
  then show ?thesis
    by (simp add: run_def detect_outliers_iqr_def)
qed

end
